theory Spec2Isabelle
  imports Main
begin

section \<open>JavaScript strings\<close>

text \<open>
  A JavaScript string is a sequence of UTF-16 code units. File names may hold any code
  unit, and \<open>btoa\<close> distinguishes the units above 255, so a string is a list of
  natural numbers here; \<open>js\<close> turns an Isabelle literal into such a list.
\<close>

type_synonym jsstring = "nat list"

definition js :: "string \<Rightarrow> jsstring" where
  "js s = map of_char s"

text \<open>\<open>s.startsWith(p)\<close> and \<open>s.endsWith(p)\<close>.\<close>

fun startsWith :: "jsstring \<Rightarrow> jsstring \<Rightarrow> bool" where
  "startsWith s [] = True"
| "startsWith [] (p # ps) = False"
| "startsWith (c # cs) (p # ps) = (c = p \<and> startsWith cs ps)"

definition endsWith :: "jsstring \<Rightarrow> jsstring \<Rightarrow> bool" where
  "endsWith s p = startsWith (rev s) (rev p)"

text \<open>
  \<open>s.replace(pat, rep)\<close> with a string pattern: only the first occurrence of
  \<open>pat\<close> is replaced (the replacement strings used by the program hold no \<open>$\<close>).
\<close>

fun replace :: "jsstring \<Rightarrow> jsstring \<Rightarrow> jsstring \<Rightarrow> jsstring" where
  "replace [] pat rep = (if pat = [] then rep else [])"
| "replace (c # cs) pat rep =
     (if startsWith (c # cs) pat then rep @ drop (length pat) (c # cs)
      else c # replace cs pat rep)"

text \<open>\<open>s.split(sep)\<close> for a separator of one code unit: never an empty array.\<close>

fun split :: "jsstring \<Rightarrow> nat \<Rightarrow> jsstring list" where
  "split [] sep = [[]]"
| "split (c # cs) sep =
     (if c = sep then [] # split cs sep
      else (case split cs sep of [] \<Rightarrow> [[c]] | w # ws \<Rightarrow> (c # w) # ws))"

text \<open>
  \<open>s.trim()\<close> strips the white space and line terminators of ECMAScript from both
  ends.
\<close>

definition isWhiteSpace :: "nat \<Rightarrow> bool" where
  "isWhiteSpace c =
     (c \<in> set [9, 10, 11, 12, 13, 32, 160, 5760, 8232, 8233, 8239, 8287, 12288, 65279]
      \<or> (8192 \<le> c \<and> c \<le> 8202))"

definition trim :: "jsstring \<Rightarrow> jsstring" where
  "trim s = rev (dropWhile isWhiteSpace (rev (dropWhile isWhiteSpace s)))"

text \<open>
  \<open>s.toLowerCase()\<close>, unit by unit, on the letters of Basic Latin and Latin-1; the
  other code units are left as they are.
\<close>

definition lowerUnit :: "nat \<Rightarrow> nat" where
  "lowerUnit c =
     (if (65 \<le> c \<and> c \<le> 90) \<or> (192 \<le> c \<and> c \<le> 222 \<and> c \<noteq> 215) then c + 32 else c)"

definition toLowerCase :: "jsstring \<Rightarrow> jsstring" where
  "toLowerCase s = map lowerUnit s"

text \<open>The decimal text of a non-negative integer, as a template literal prints it.\<close>

fun digits :: "nat \<Rightarrow> jsstring" where
  "digits n = (if n < 10 then [48 + n] else digits (n div 10) @ [48 + n mod 10])"

declare digits.simps [simp del]

text \<open>
  \<open>btoa(s)\<close>: the Base64 text of a string of Latin-1 units. A unit above 255 makes
  the platform throw \<open>InvalidCharacterError\<close>, the value \<open>None\<close> here.
\<close>

definition b64char :: "nat \<Rightarrow> nat" where
  "b64char i =
     (if i < 26 then 65 + i
      else if i < 52 then 97 + (i - 26)
      else if i < 62 then 48 + (i - 52)
      else if i = 62 then 43 else 47)"

fun b64encode :: "nat list \<Rightarrow> jsstring" where
  "b64encode (a # b # c # rest) =
     [b64char (a div 4), b64char ((a mod 4) * 16 + b div 16),
      b64char ((b mod 16) * 4 + c div 64), b64char (c mod 64)] @ b64encode rest"
| "b64encode [a, b] =
     [b64char (a div 4), b64char ((a mod 4) * 16 + b div 16), b64char ((b mod 16) * 4), 61]"
| "b64encode [a] = [b64char (a div 4), b64char ((a mod 4) * 16), 61, 61]"
| "b64encode [] = []"

definition btoa :: "jsstring \<Rightarrow> jsstring option" where
  "btoa s = (if list_all (\<lambda>c. c \<le> 255) s then Some (b64encode s) else None)"

section \<open>The hook \<open>useFileUpload\<close>\<close>

text \<open>
  A \<open>File\<close> of the platform: its name, its size in bytes and its MIME type.
  \<open>file_read\<close> is what \<open>FileReader.readAsDataURL\<close> delivers to \<open>onload\<close> for
  this blob, and \<open>None\<close> when the read fails, so that \<open>onload\<close> never runs.
\<close>

record File =
  file_name :: jsstring
  file_size :: nat
  file_type :: jsstring
  file_read :: "jsstring option"

record FileWithPreview =
  item_id :: jsstring
  item_file :: File
  item_preview :: jsstring

text \<open>
  The options after defaulting. \<open>maxFiles\<close>, \<open>maxSize\<close> and \<open>minSize\<close> are whole
  numbers; of the three callbacks only their presence matters, their calls are logged
  in the state.
\<close>

record UseFileUploadOptions =
  accept :: jsstring
  multiple :: bool
  maxFiles :: nat
  maxSize :: nat
  minSize :: nat
  hasOnFilesSelected :: bool
  hasOnUpload :: bool
  hasOnError :: bool

text \<open>
  \<open>validateFile\<close>, with the callback of \<open>some\<close> and the three templates of its
  messages named. \<open>formatFileSize\<close> computes with floating-point logarithms and is a
  parameter; \<open>maxSize && \<dots>\<close> is false for 0.
\<close>

definition typeMatches :: "jsstring \<Rightarrow> File \<Rightarrow> bool" where
  "typeMatches t file =
     (if endsWith t (js ''/*'') then startsWith (file_type file) (replace t (js ''/*'') [])
      else file_type file = t)"

definition isValidType :: "jsstring \<Rightarrow> File \<Rightarrow> bool" where
  "isValidType acc file = list_ex (\<lambda>t. typeMatches t file) (map trim (split acc 44))"

definition tooLarge :: "(nat \<Rightarrow> jsstring) \<Rightarrow> UseFileUploadOptions \<Rightarrow> File \<Rightarrow> jsstring" where
  "tooLarge formatFileSize opts file =
     js ''File '' @ file_name file @ js '' is too large. Maximum size is ''
     @ formatFileSize (maxSize opts)"

definition tooSmall :: "(nat \<Rightarrow> jsstring) \<Rightarrow> UseFileUploadOptions \<Rightarrow> File \<Rightarrow> jsstring" where
  "tooSmall formatFileSize opts file =
     js ''File '' @ file_name file @ js '' is too small. Minimum size is ''
     @ formatFileSize (minSize opts)"

definition unsupported :: "UseFileUploadOptions \<Rightarrow> File \<Rightarrow> jsstring" where
  "unsupported opts file =
     js ''File '' @ file_name file @ js '' has an unsupported type. Allowed types: ''
     @ accept opts"

definition validateFile ::
  "(nat \<Rightarrow> jsstring) \<Rightarrow> UseFileUploadOptions \<Rightarrow> File \<Rightarrow> jsstring option" where
  "validateFile formatFileSize opts file =
     (if maxSize opts \<noteq> 0 \<and> file_size file > maxSize opts then
        Some (tooLarge formatFileSize opts file)
      else if minSize opts \<noteq> 0 \<and> file_size file < minSize opts then
        Some (tooSmall formatFileSize opts file)
      else if accept opts \<noteq> js ''*/*'' \<and> \<not> isValidType (accept opts) file then
        Some (unsupported opts file)
      else None)"

text \<open>
  A promise is fulfilled with a value, rejected, or never settled.
  \<open>createFilePreview\<close> takes the random id it draws as a parameter.
\<close>

datatype 'a promise = Resolved 'a | Rejected | Pending

definition createFilePreview :: "jsstring \<Rightarrow> File \<Rightarrow> FileWithPreview promise" where
  "createFilePreview rid file =
     (if startsWith (file_type file) (js ''image/'') then
        (case file_read file of
           Some url \<Rightarrow> Resolved \<lparr>item_id = rid, item_file = file, item_preview = url\<rparr>
         | None \<Rightarrow> Pending)
      else
        (case btoa (file_name file) of
           Some b \<Rightarrow> Resolved \<lparr>item_id = rid, item_file = file,
                               item_preview = js ''data:text/plain;base64,'' @ b\<rparr>
         | None \<Rightarrow> Rejected))"

text \<open>
  \<open>Promise.all\<close>: the promises settle in the order of the schedule \<open>order\<close> (a list
  of positions); each value is stored at the position of its promise, the first
  rejection rejects the whole, and the whole is fulfilled when every slot is filled.
\<close>

fun settle_all :: "nat list \<Rightarrow> 'a promise list \<Rightarrow> 'a option list \<Rightarrow> 'a list promise" where
  "settle_all [] ps slots = Pending"
| "settle_all (i # rest) ps slots =
     (if i < length ps then
        (case ps ! i of
           Rejected \<Rightarrow> Rejected
         | Pending \<Rightarrow> settle_all rest ps slots
         | Resolved v \<Rightarrow>
             (if list_all (\<lambda>x. x \<noteq> None) (slots[i := Some v])
              then Resolved (map the (slots[i := Some v]))
              else settle_all rest ps (slots[i := Some v])))
      else settle_all rest ps slots)"

definition promise_all :: "nat list \<Rightarrow> 'a promise list \<Rightarrow> 'a list promise" where
  "promise_all order ps =
     (if ps = [] then Resolved [] else settle_all order ps (replicate (length ps) None))"

text \<open>
  The state of the hook, with the calls of the three callbacks and the two timers:
  \<open>interval\<close> holds while the progress interval runs, \<open>resetTimer\<close> while the
  500 ms timeout is scheduled.
\<close>

record hook_state =
  files :: "FileWithPreview list"
  isUploading :: bool
  uploadProgress :: nat
  interval :: bool
  resetTimer :: bool
  reported :: "jsstring list"
  selected :: "File list list"
  uploaded :: "File list list"

datatype rejection = ErrorObject jsstring | OtherValue

datatype upload_result = UploadResolves | UploadRejects rejection

text \<open>
  What the platform and the caller decide during one call of \<open>handleFiles\<close>: the
  random ids, the order in which the previews settle, how often the interval fires
  while the upload is awaited, and how the upload ends.
\<close>

record environment =
  ids :: "nat \<Rightarrow> jsstring"
  order :: "nat list"
  ticks :: nat
  upload :: upload_result

datatype completion = Fulfilled | Unhandled | Stalls

fun forEach_validate ::
  "(nat \<Rightarrow> jsstring) \<Rightarrow> UseFileUploadOptions \<Rightarrow> File list \<Rightarrow>
   File list \<times> jsstring list \<Rightarrow> File list \<times> jsstring list" where
  "forEach_validate fmt opts [] acc = acc"
| "forEach_validate fmt opts (file # rest) (validFiles, errors) =
     (case validateFile fmt opts file of
        Some error \<Rightarrow> forEach_validate fmt opts rest (validFiles, errors @ [error])
      | None \<Rightarrow> forEach_validate fmt opts rest (validFiles @ [file], errors))"

definition report :: "UseFileUploadOptions \<Rightarrow> jsstring \<Rightarrow> hook_state \<Rightarrow> hook_state" where
  "report opts error s = (if hasOnError opts then s\<lparr>reported := reported s @ [error]\<rparr> else s)"

definition tick :: "hook_state \<Rightarrow> hook_state" where
  "tick s =
     (if interval s then
        (if uploadProgress s \<ge> 90 then s\<lparr>interval := False, uploadProgress := 90\<rparr>
         else s\<lparr>uploadProgress := uploadProgress s + 10\<rparr>)
      else s)"

definition rejectionMessage :: "rejection \<Rightarrow> jsstring" where
  "rejectionMessage r = (case r of ErrorObject m \<Rightarrow> m | OtherValue \<Rightarrow> js ''Upload failed'')"

text \<open>
  The block \<open>if (onUpload) \<dots>\<close>. The interval is a constant of the \<open>try\<close> block, so
  the \<open>catch\<close> branch cannot clear it and leaves it running.
\<close>

definition autoUpload ::
  "UseFileUploadOptions \<Rightarrow> environment \<Rightarrow> FileWithPreview list \<Rightarrow> hook_state \<Rightarrow> hook_state" where
  "autoUpload opts e finalFiles s =
     (let s1 = s\<lparr>isUploading := True, uploadProgress := 0\<rparr>;
          s2 = s1\<lparr>interval := True, uploaded := uploaded s1 @ [map item_file finalFiles]\<rparr>;
          s3 = (tick ^^ ticks e) s2
      in case upload e of
           UploadResolves \<Rightarrow> s3\<lparr>interval := False, uploadProgress := 100, resetTimer := True\<rparr>
         | UploadRejects r \<Rightarrow>
             report opts (rejectionMessage r) (s3\<lparr>isUploading := False, uploadProgress := 0\<rparr>))"

definition graceTimeout :: "hook_state \<Rightarrow> hook_state" where
  "graceTimeout s =
     (if resetTimer s then s\<lparr>isUploading := False, uploadProgress := 0, resetTimer := False\<rparr>
      else s)"

text \<open>
  \<open>handleFiles\<close>. \<open>rendered\<close> is the value of \<open>files\<close> in the render that made the
  callback; \<open>setFiles(finalFiles)\<close> overwrites the state with a list computed from it.
\<close>

definition handleFiles ::
  "(nat \<Rightarrow> jsstring) \<Rightarrow> UseFileUploadOptions \<Rightarrow> environment \<Rightarrow> FileWithPreview list \<Rightarrow>
   File list \<Rightarrow> hook_state \<Rightarrow> completion \<times> hook_state" where
  "handleFiles fmt opts e rendered selectedFiles s =
     (let (validFiles, errors) = forEach_validate fmt opts selectedFiles ([], []);
          s0 = fold (report opts) errors s
      in if validFiles = [] then (Fulfilled, s0)
         else
           (case promise_all (order e)
                   (map (\<lambda>(i, file). createFilePreview (ids e i) file) (enumerate 0 validFiles)) of
              Rejected \<Rightarrow> (Unhandled, s0)
            | Pending \<Rightarrow> (Stalls, s0)
            | Resolved filesWithPreviews \<Rightarrow>
                (let newFiles = (if multiple opts then rendered @ filesWithPreviews
                                 else filesWithPreviews);
                     finalFiles = take (maxFiles opts) newFiles;
                     s1 = s0\<lparr>files := finalFiles\<rparr>;
                     s2 = (if hasOnFilesSelected opts
                           then s1\<lparr>selected := selected s1 @ [map item_file finalFiles]\<rparr>
                           else s1)
                 in if hasOnUpload opts then (Fulfilled, autoUpload opts e finalFiles s2)
                    else (Fulfilled, s2))))"

definition removeFile :: "jsstring \<Rightarrow> hook_state \<Rightarrow> hook_state" where
  "removeFile rid s = s\<lparr>files := filter (\<lambda>f. item_id f \<noteq> rid) (files s)\<rparr>"

definition clearFiles :: "hook_state \<Rightarrow> hook_state" where
  "clearFiles s = s\<lparr>files := [], isUploading := False, uploadProgress := 0\<rparr>"

definition initial :: hook_state where
  "initial = \<lparr>files = [], isUploading = False, uploadProgress = 0, interval = False,
              resetTimer = False, reported = [], selected = [], uploaded = []\<rparr>"

section \<open>The multi-file intake of the component \<open>FileUploader\<close>\<close>

text \<open>
  The fields of the merged configuration that \<open>handleMultipleFiles\<close> reads.
  \<open>maxFileSizeMB\<close> is a whole number of megabytes. \<open>x || d\<close> yields \<open>d\<close> for 0.
\<close>

record FileUploaderConfig =
  maxFileSizeMB :: nat
  acceptedFileTypes :: jsstring
  cfg_maxFiles :: nat

record FileItem =
  fi_id :: jsstring
  fi_file :: File
  fi_preview :: jsstring
  fi_name :: jsstring
  fi_size :: nat
  fi_type :: jsstring

text \<open>
  The platform's part of an accepted item, by the position of the file in the batch:
  the text of \<open>Date.now()\<close> and \<open>Math.random()\<close> in the id, and the object URL.
\<close>

record platform =
  stamp :: "nat \<Rightarrow> jsstring"
  objectURL :: "nat \<Rightarrow> jsstring"

record intake_state =
  mf_files :: "FileItem list"
  mf_errors :: "jsstring list"
  revoked :: "jsstring list"

definition limitFiles :: "FileUploaderConfig \<Rightarrow> nat" where
  "limitFiles cfg = (if cfg_maxFiles cfg = 0 then 6 else cfg_maxFiles cfg)"

definition limitSize :: "FileUploaderConfig \<Rightarrow> nat" where
  "limitSize cfg = (if maxFileSizeMB cfg = 0 then 10 else maxFileSizeMB cfg) * 1024 * 1024"

definition typeOrNameMatches :: "jsstring \<Rightarrow> File \<Rightarrow> bool" where
  "typeOrNameMatches t file =
     (if endsWith t (js ''/*'') then startsWith (file_type file) (replace t (js ''/*'') [])
      else file_type file = t
           \<or> endsWith (toLowerCase (file_name file)) (replace t (js ''.'') []))"

definition isAccepted :: "jsstring \<Rightarrow> File \<Rightarrow> bool" where
  "isAccepted types file = list_ex (\<lambda>t. typeOrNameMatches t file) (map trim (split types 44))"

definition exceeds :: "FileUploaderConfig \<Rightarrow> File \<Rightarrow> jsstring" where
  "exceeds cfg file = file_name file @ js '' exceeds '' @ digits (maxFileSizeMB cfg) @ js ''MB''"

definition maximumAllowed :: "FileUploaderConfig \<Rightarrow> jsstring" where
  "maximumAllowed cfg = js ''Maximum '' @ digits (limitFiles cfg) @ js '' files allowed''"

definition notAccepted :: "File \<Rightarrow> jsstring" where
  "notAccepted file = file_name file @ js '' is not an accepted file type''"

definition newItem :: "platform \<Rightarrow> nat \<Rightarrow> File \<Rightarrow> FileItem" where
  "newItem pf i file =
     \<lparr>fi_id = file_name file @ js ''-'' @ stamp pf i, fi_file = file,
      fi_preview = objectURL pf i, fi_name = file_name file, fi_size = file_size file,
      fi_type = file_type file\<rparr>"

text \<open>
  The body of the \<open>forEach\<close> for the file at position \<open>i\<close>, with its three
  messages named; \<open>rendered\<close> is the value of \<open>files\<close> that the function closes
  over.
\<close>

definition intake ::
  "FileUploaderConfig \<Rightarrow> platform \<Rightarrow> FileItem list \<Rightarrow> nat \<Rightarrow> File \<Rightarrow>
   FileItem list \<times> jsstring list \<Rightarrow> FileItem list \<times> jsstring list" where
  "intake cfg pf rendered i file acc =
     (case acc of (validFiles, newErrors) \<Rightarrow>
        if file_size file > limitSize cfg then (validFiles, newErrors @ [exceeds cfg file])
        else if length rendered + length validFiles \<ge> limitFiles cfg then
          (validFiles, newErrors @ [maximumAllowed cfg])
        else if acceptedFileTypes cfg \<noteq> [] \<and> acceptedFileTypes cfg \<noteq> js ''*/*''
                \<and> \<not> isAccepted (acceptedFileTypes cfg) file then
          (validFiles, newErrors @ [notAccepted file])
        else (validFiles @ [newItem pf i file], newErrors))"

fun forEach_intake ::
  "FileUploaderConfig \<Rightarrow> platform \<Rightarrow> FileItem list \<Rightarrow> nat \<Rightarrow> File list \<Rightarrow>
   FileItem list \<times> jsstring list \<Rightarrow> FileItem list \<times> jsstring list" where
  "forEach_intake cfg pf rendered i [] acc = acc"
| "forEach_intake cfg pf rendered i (file # rest) acc =
     forEach_intake cfg pf rendered (Suc i) rest (intake cfg pf rendered i file acc)"

definition handleMultipleFiles ::
  "FileUploaderConfig \<Rightarrow> platform \<Rightarrow> FileItem list \<Rightarrow> File list \<Rightarrow> intake_state \<Rightarrow>
   intake_state" where
  "handleMultipleFiles cfg pf rendered newFiles st =
     (case forEach_intake cfg pf rendered 0 newFiles ([], []) of
        (validFiles, newErrors) \<Rightarrow>
          st\<lparr>mf_files := mf_files st @ validFiles, mf_errors := newErrors\<rparr>)"

text \<open>
  \<open>handleMultiFileChange\<close> is made anew by every render, so the \<open>files\<close> it closes
  over are those of the current state.
\<close>

definition handleMultiFileChange ::
  "FileUploaderConfig \<Rightarrow> platform \<Rightarrow> File list \<Rightarrow> intake_state \<Rightarrow> intake_state" where
  "handleMultiFileChange cfg pf selectedFiles st =
     handleMultipleFiles cfg pf (mf_files st) selectedFiles st"

definition removeItem :: "jsstring \<Rightarrow> intake_state \<Rightarrow> intake_state" where
  "removeItem fileId st =
     (case find (\<lambda>f. fi_id f = fileId) (mf_files st) of
        Some fileToRemove \<Rightarrow>
          st\<lparr>mf_files := filter (\<lambda>f. fi_id f \<noteq> fileId) (mf_files st),
             revoked := revoked st @ [fi_preview fileToRemove]\<rparr>
      | None \<Rightarrow> st\<lparr>mf_files := filter (\<lambda>f. fi_id f \<noteq> fileId) (mf_files st)\<rparr>)"

section \<open>Sequences of operations\<close>





definition empty_intake :: intake_state where
  "empty_intake = \<lparr>mf_files = [], mf_errors = [], revoked = []\<rparr>"

section \<open>The validator of the specification\<close>

text \<open>
  The four checks of section 4.1 of the specification, in its words and in its order,
  to compare the two validators of the code with; \<open>typeMatches\<close> is the verdict of its
  type matching.
\<close>

datatype reason = SizeTooLarge | SizeTooSmall | CapacityExceeded | UnsupportedType

definition spec_validate :: "nat \<Rightarrow> bool \<Rightarrow> nat \<Rightarrow> nat \<Rightarrow> nat \<Rightarrow> nat \<Rightarrow> reason option" where
  "spec_validate sizeBytes typeOk maxSizeBytes minSizeBytes maxFileCount currentCount =
     (if sizeBytes > maxSizeBytes then Some SizeTooLarge
      else if sizeBytes < minSizeBytes then Some SizeTooSmall
      else if currentCount \<ge> maxFileCount then Some CapacityExceeded
      else if \<not> typeOk then Some UnsupportedType
      else None)"

section \<open>Example inputs\<close>

definition pngFile :: File where
  "pngFile = \<lparr>file_name = js ''a.png'', file_size = 500000, file_type = js ''image/png'',
              file_read = Some (js ''data:image/png;base64,iVBORw=='')\<rparr>"

definition pdfFile :: File where
  "pdfFile = \<lparr>file_name = js ''report.pdf'', file_size = 100000,
              file_type = js ''application/pdf'', file_read = None\<rparr>"

definition txtFile :: File where
  "txtFile = \<lparr>file_name = js ''b.txt'', file_size = 12, file_type = js ''text/plain'',
              file_read = None\<rparr>"

text \<open>A text file whose name begins with the euro sign, the code unit 8364.\<close>

definition euroFile :: File where
  "euroFile = \<lparr>file_name = 8364 # js ''.txt'', file_size = 3, file_type = js ''text/plain'',
               file_read = None\<rparr>"

definition anyOptions :: UseFileUploadOptions where
  "anyOptions = \<lparr>accept = js ''*/*'', multiple = True, maxFiles = 3, maxSize = 10485760,
                 minSize = 0, hasOnFilesSelected = True, hasOnUpload = True,
                 hasOnError = True\<rparr>"

definition inOrder :: environment where
  "inOrder = \<lparr>ids = digits, order = [0, 1, 2, 3, 4], ticks = 2, upload = UploadResolves\<rparr>"

definition imageConfig :: FileUploaderConfig where
  "imageConfig = \<lparr>maxFileSizeMB = 1, acceptedFileTypes = js ''image/*'', cfg_maxFiles = 2\<rparr>"

definition somePlatform :: platform where
  "somePlatform = \<lparr>stamp = digits, objectURL = (\<lambda>i. js ''blob:'' @ digits i)\<rparr>"

section \<open>Properties\<close>

subsection \<open>Evaluation and strings\<close>

lemmas str_defs = js_def endsWith_def trim_def isWhiteSpace_def toLowerCase_def lowerUnit_def
  btoa_def b64char_def

lemmas hook_defs = validateFile_def isValidType_def typeMatches_def tooLarge_def tooSmall_def
  unsupported_def createFilePreview_def promise_all_def report_def tick_def
  rejectionMessage_def autoUpload_def handleFiles_def removeFile_def clearFiles_def initial_def

lemmas intake_defs = limitFiles_def limitSize_def typeOrNameMatches_def isAccepted_def
  exceeds_def maximumAllowed_def notAccepted_def newItem_def intake_def
  handleMultipleFiles_def handleMultiFileChange_def removeItem_def empty_intake_def

lemmas ex_defs = pngFile_def pdfFile_def txtFile_def euroFile_def anyOptions_def inOrder_def
  imageConfig_def somePlatform_def

lemma list_update_numeral: "(x # xs)[numeral k := y] = x # xs[pred_numeral k := y]"
  by (simp add: numeral_eq_Suc)

lemma funpow_numeral: "(f ^^ numeral k) x = (f ^^ pred_numeral k) (f x)"
  by (simp add: numeral_eq_Suc funpow_swap1)

lemmas num_simps = list_update_numeral funpow_numeral





subsection \<open>The two validators\<close>

lemma messages_distinct:
  "tooLarge fmt opts f \<noteq> tooSmall fmt opts f"
  "tooLarge fmt opts f \<noteq> unsupported opts f"
  "tooSmall fmt opts f \<noteq> unsupported opts f"
  by (simp_all add: tooLarge_def tooSmall_def unsupported_def js_def)

lemma size_irrelevant:
  "isValidType acc (f\<lparr>file_size := n\<rparr>) = isValidType acc f"
  "unsupported opts (f\<lparr>file_size := n\<rparr>) = unsupported opts f"
  by (simp_all add: isValidType_def typeMatches_def unsupported_def)

text \<open>
  Claim C9. In the validator of the hook a bound of 0 switches the size check off: with
  \<open>maxSize = 0\<close> no file is rejected as too large, with \<open>minSize = 0\<close> no file is
  rejected as too small, with both the verdict does not depend on the size of the file,
  and with the wildcard type every file is then accepted.
\<close>

theorem zero_bound_disables_size_check:
  "(maxSize opts = 0 \<longrightarrow> validateFile fmt opts f \<noteq> Some (tooLarge fmt opts f))
   \<and> (minSize opts = 0 \<longrightarrow> validateFile fmt opts f \<noteq> Some (tooSmall fmt opts f))
   \<and> (maxSize opts = 0 \<and> minSize opts = 0 \<longrightarrow>
        validateFile fmt opts (f\<lparr>file_size := n\<rparr>) = validateFile fmt opts f)
   \<and> (maxSize opts = 0 \<and> minSize opts = 0 \<and> accept opts = js ''*/*'' \<longrightarrow>
        validateFile fmt opts f = None)"
proof (intro conjI impI)
  assume "maxSize opts = 0"
  then show "validateFile fmt opts f \<noteq> Some (tooLarge fmt opts f)"
    using messages_distinct(1,2)[of fmt opts f]
    by (simp add: validateFile_def)
next
  assume "minSize opts = 0"
  then show "validateFile fmt opts f \<noteq> Some (tooSmall fmt opts f)"
    using messages_distinct(1,3)[of fmt opts f]
    by (simp add: validateFile_def)
next
  assume "maxSize opts = 0 \<and> minSize opts = 0"
  then show "validateFile fmt opts (f\<lparr>file_size := n\<rparr>) = validateFile fmt opts f"
    by (simp add: validateFile_def size_irrelevant)
next
  assume "maxSize opts = 0 \<and> minSize opts = 0 \<and> accept opts = js ''*/*''"
  then show "validateFile fmt opts f = None"
    by (simp add: validateFile_def)
qed

theorem zero_bound_disables_size_check_witness:
  "maxSize (anyOptions\<lparr>maxSize := 0\<rparr>) = 0 \<and> minSize (anyOptions\<lparr>maxSize := 0\<rparr>) = 0
   \<and> accept (anyOptions\<lparr>maxSize := 0\<rparr>) = js ''*/*'' \<and> file_size pngFile = 500000
   \<and> validateFile digits (anyOptions\<lparr>maxSize := 0\<rparr>) pngFile = None
   \<and> validateFile digits (anyOptions\<lparr>maxSize := 0\<rparr>) pngFile
       \<noteq> Some (tooLarge digits (anyOptions\<lparr>maxSize := 0\<rparr>) pngFile)"
proof -
  have h: "maxSize (anyOptions\<lparr>maxSize := 0\<rparr>) = 0 \<and> minSize (anyOptions\<lparr>maxSize := 0\<rparr>) = 0
           \<and> accept (anyOptions\<lparr>maxSize := 0\<rparr>) = js ''*/*''"
    by (simp add: anyOptions_def)
  have s: "file_size pngFile = 500000" by (simp add: pngFile_def)
  show ?thesis
    using h s
      zero_bound_disables_size_check[where opts = "anyOptions\<lparr>maxSize := 0\<rparr>"
        and fmt = digits and f = pngFile]
    by simp
qed

text \<open>
  Claim C4, as amended. The validator of the hook checks the upper size bound (when
  \<open>maxSize\<close> is not 0), then the lower size bound (when \<open>minSize\<close> is not 0), then the
  type, and has no capacity check. The intake of the component checks the upper size
  bound, then the capacity, then the type, and has no lower size bound. In both the first
  failing check decides, so a rejected file gets exactly one message.
\<close>

theorem validation_order:
  "(maxSize opts \<noteq> 0 \<and> file_size f > maxSize opts \<longrightarrow>
      validateFile fmt opts f = Some (tooLarge fmt opts f))
   \<and> (\<not> (maxSize opts \<noteq> 0 \<and> file_size f > maxSize opts)
        \<and> minSize opts \<noteq> 0 \<and> file_size f < minSize opts \<longrightarrow>
      validateFile fmt opts f = Some (tooSmall fmt opts f))
   \<and> (\<not> (maxSize opts \<noteq> 0 \<and> file_size f > maxSize opts)
        \<and> \<not> (minSize opts \<noteq> 0 \<and> file_size f < minSize opts)
        \<and> accept opts \<noteq> js ''*/*'' \<and> \<not> isValidType (accept opts) f \<longrightarrow>
      validateFile fmt opts f = Some (unsupported opts f))
   \<and> (\<not> (maxSize opts \<noteq> 0 \<and> file_size f > maxSize opts)
        \<and> \<not> (minSize opts \<noteq> 0 \<and> file_size f < minSize opts)
        \<and> \<not> (accept opts \<noteq> js ''*/*'' \<and> \<not> isValidType (accept opts) f) \<longrightarrow>
      validateFile fmt opts f = None)
   \<and> (file_size f > limitSize cfg \<longrightarrow>
      intake cfg pf rendered i f (validFiles, newErrors)
        = (validFiles, newErrors @ [exceeds cfg f]))
   \<and> (file_size f \<le> limitSize cfg
        \<and> length rendered + length validFiles \<ge> limitFiles cfg \<longrightarrow>
      intake cfg pf rendered i f (validFiles, newErrors)
        = (validFiles, newErrors @ [maximumAllowed cfg]))
   \<and> (file_size f \<le> limitSize cfg
        \<and> length rendered + length validFiles < limitFiles cfg
        \<and> acceptedFileTypes cfg \<noteq> [] \<and> acceptedFileTypes cfg \<noteq> js ''*/*''
        \<and> \<not> isAccepted (acceptedFileTypes cfg) f \<longrightarrow>
      intake cfg pf rendered i f (validFiles, newErrors)
        = (validFiles, newErrors @ [notAccepted f]))
   \<and> (file_size f \<le> limitSize cfg
        \<and> length rendered + length validFiles < limitFiles cfg
        \<and> (acceptedFileTypes cfg = [] \<or> acceptedFileTypes cfg = js ''*/*''
            \<or> isAccepted (acceptedFileTypes cfg) f) \<longrightarrow>
      intake cfg pf rendered i f (validFiles, newErrors)
        = (validFiles @ [newItem pf i f], newErrors))"
  by (simp add: validateFile_def intake_def)

text \<open>
  One input for each branch. A text file of 12 bytes against \<open>maxSize = 10\<close>,
  \<open>minSize = 20\<close> and the types \<open>image/*\<close> fails all three checks of the hook and is
  reported as too large only, and with 5 bytes as too small only; a PDF of 2000000 bytes
  offered to a full image-only component is reported as exceeding the size only, and a
  small PDF as over capacity only.
\<close>

theorem validation_order_witness:
  "validateFile digits (anyOptions\<lparr>maxSize := 10, minSize := 20, accept := js ''image/*''\<rparr>) txtFile
       = Some (tooLarge digits (anyOptions\<lparr>maxSize := 10, minSize := 20, accept := js ''image/*''\<rparr>) txtFile)
   \<and> validateFile digits (anyOptions\<lparr>maxSize := 10, minSize := 20, accept := js ''image/*''\<rparr>)
         (txtFile\<lparr>file_size := 5\<rparr>)
       = Some (tooSmall digits (anyOptions\<lparr>maxSize := 10, minSize := 20, accept := js ''image/*''\<rparr>)
           (txtFile\<lparr>file_size := 5\<rparr>))
   \<and> validateFile digits (anyOptions\<lparr>accept := js ''image/*''\<rparr>) pdfFile
       = Some (unsupported (anyOptions\<lparr>accept := js ''image/*''\<rparr>) pdfFile)
   \<and> validateFile digits (anyOptions\<lparr>accept := js ''image/*''\<rparr>) pngFile = None
   \<and> intake imageConfig somePlatform [] 2 (pdfFile\<lparr>file_size := 2000000\<rparr>)
        ([newItem somePlatform 0 pngFile, newItem somePlatform 1 pngFile], [])
       = ([newItem somePlatform 0 pngFile, newItem somePlatform 1 pngFile],
          [exceeds imageConfig (pdfFile\<lparr>file_size := 2000000\<rparr>)])
   \<and> intake imageConfig somePlatform [] 2 pdfFile
        ([newItem somePlatform 0 pngFile, newItem somePlatform 1 pngFile], [])
       = ([newItem somePlatform 0 pngFile, newItem somePlatform 1 pngFile],
          [maximumAllowed imageConfig])
   \<and> intake imageConfig somePlatform [] 0 pdfFile ([], []) = ([], [notAccepted pdfFile])
   \<and> intake imageConfig somePlatform [] 0 pngFile ([], []) = ([newItem somePlatform 0 pngFile], [])"
proof -
  let ?o1 = "anyOptions\<lparr>maxSize := 10, minSize := 20, accept := js ''image/*''\<rparr>"
  let ?o2 = "anyOptions\<lparr>accept := js ''image/*''\<rparr>"
  let ?two = "[newItem somePlatform 0 pngFile, newItem somePlatform 1 pngFile]"
  have t: "isValidType (js ''image/*'') pngFile" "\<not> isValidType (js ''image/*'') pdfFile"
    "isAccepted (js ''image/*'') pngFile" "\<not> isAccepted (js ''image/*'') pdfFile"
    "\<not> isAccepted (js ''image/*'') (pdfFile\<lparr>file_size := 2000000\<rparr>)"
    by (simp_all add: isValidType_def typeMatches_def isAccepted_def typeOrNameMatches_def
        ex_defs str_defs)
  have c: "limitSize imageConfig = 1048576" "limitFiles imageConfig = 2"
    "acceptedFileTypes imageConfig = js ''image/*''" "js ''image/*'' \<noteq> js ''*/*''"
    "js ''image/*'' \<noteq> []"
    by (simp_all add: limitSize_def limitFiles_def imageConfig_def js_def)
  have h1: "maxSize ?o1 \<noteq> 0 \<and> file_size txtFile > maxSize ?o1"
    by (simp add: ex_defs)
  have h2: "\<not> (maxSize ?o1 \<noteq> 0 \<and> file_size (txtFile\<lparr>file_size := 5\<rparr>) > maxSize ?o1)
      \<and> minSize ?o1 \<noteq> 0 \<and> file_size (txtFile\<lparr>file_size := 5\<rparr>) < minSize ?o1"
    by (simp add: ex_defs)
  have h3: "\<not> (maxSize ?o2 \<noteq> 0 \<and> file_size pdfFile > maxSize ?o2)
      \<and> \<not> (minSize ?o2 \<noteq> 0 \<and> file_size pdfFile < minSize ?o2)
      \<and> accept ?o2 \<noteq> js ''*/*'' \<and> \<not> isValidType (accept ?o2) pdfFile"
    using t(2) c(4) by (simp add: ex_defs)
  have h4: "\<not> (maxSize ?o2 \<noteq> 0 \<and> file_size pngFile > maxSize ?o2)
      \<and> \<not> (minSize ?o2 \<noteq> 0 \<and> file_size pngFile < minSize ?o2)
      \<and> \<not> (accept ?o2 \<noteq> js ''*/*'' \<and> \<not> isValidType (accept ?o2) pngFile)"
    using t(1) by (simp add: ex_defs)
  have h5: "file_size (pdfFile\<lparr>file_size := 2000000\<rparr>) > limitSize imageConfig"
    by (simp add: c)
  have h6: "file_size pdfFile \<le> limitSize imageConfig
      \<and> length ([] :: FileItem list) + length ?two \<ge> limitFiles imageConfig"
    by (simp add: c pdfFile_def)
  have h7: "file_size pdfFile \<le> limitSize imageConfig
      \<and> length ([] :: FileItem list) + length ([] :: FileItem list) < limitFiles imageConfig
      \<and> acceptedFileTypes imageConfig \<noteq> [] \<and> acceptedFileTypes imageConfig \<noteq> js ''*/*''
      \<and> \<not> isAccepted (acceptedFileTypes imageConfig) pdfFile"
    using t(4) by (simp add: c pdfFile_def)
  have h8: "file_size pngFile \<le> limitSize imageConfig
      \<and> length ([] :: FileItem list) + length ([] :: FileItem list) < limitFiles imageConfig
      \<and> (acceptedFileTypes imageConfig = [] \<or> acceptedFileTypes imageConfig = js ''*/*''
          \<or> isAccepted (acceptedFileTypes imageConfig) pngFile)"
    using t(3) by (simp add: c pngFile_def)
  have r1: "validateFile digits ?o1 txtFile = Some (tooLarge digits ?o1 txtFile)"
    using h1 validation_order[where opts = ?o1 and fmt = digits and f = txtFile] by blast
  have r2: "validateFile digits ?o1 (txtFile\<lparr>file_size := 5\<rparr>)
      = Some (tooSmall digits ?o1 (txtFile\<lparr>file_size := 5\<rparr>))"
    using h2 validation_order[where opts = ?o1 and fmt = digits and f = "txtFile\<lparr>file_size := 5\<rparr>"]
    by blast
  have r3: "validateFile digits ?o2 pdfFile = Some (unsupported ?o2 pdfFile)"
    using h3 validation_order[where opts = ?o2 and fmt = digits and f = pdfFile] by blast
  have r4: "validateFile digits ?o2 pngFile = None"
    using h4 validation_order[where opts = ?o2 and fmt = digits and f = pngFile] by blast
  have r5: "intake imageConfig somePlatform [] 2 (pdfFile\<lparr>file_size := 2000000\<rparr>) (?two, [])
      = (?two, [exceeds imageConfig (pdfFile\<lparr>file_size := 2000000\<rparr>)])"
    using h5 validation_order[where cfg = imageConfig and f = "pdfFile\<lparr>file_size := 2000000\<rparr>"
        and pf = somePlatform and rendered = "[]" and i = 2 and validFiles = ?two
        and newErrors = "[]"]
    by simp
  have r6: "intake imageConfig somePlatform [] 2 pdfFile (?two, []) = (?two, [maximumAllowed imageConfig])"
    using h6 validation_order[where cfg = imageConfig and f = pdfFile
        and pf = somePlatform and rendered = "[]" and i = 2 and validFiles = ?two
        and newErrors = "[]"]
    by simp
  have r7: "intake imageConfig somePlatform [] 0 pdfFile ([], []) = ([], [notAccepted pdfFile])"
    using h7 validation_order[where cfg = imageConfig and f = pdfFile
        and pf = somePlatform and rendered = "[]" and i = 0 and validFiles = "[]"
        and newErrors = "[]"]
    by simp
  have r8: "intake imageConfig somePlatform [] 0 pngFile ([], []) = ([newItem somePlatform 0 pngFile], [])"
    using h8 validation_order[where cfg = imageConfig and f = pngFile
        and pf = somePlatform and rendered = "[]" and i = 0 and validFiles = "[]"
        and newErrors = "[]"]
    by simp
  from r1 r2 r3 r4 r5 r6 r7 r8 show ?thesis by blast
qed

text \<open>
  The claim as stated fails on the hook: with \<open>maxFiles = 1\<close> and one file listed, a
  further valid file is over capacity for the validator of the specification, but
  \<open>validateFile\<close> accepts it and \<open>handleFiles\<close> reports no reason for it.
\<close>

theorem validation_order_counterexample:
  "spec_validate (file_size txtFile) True (maxSize (anyOptions\<lparr>maxFiles := 1\<rparr>))
       (minSize (anyOptions\<lparr>maxFiles := 1\<rparr>)) (maxFiles (anyOptions\<lparr>maxFiles := 1\<rparr>))
       (length [\<lparr>item_id = js ''p'', item_file = pngFile, item_preview = js ''data:,''\<rparr>])
     = Some CapacityExceeded
   \<and> validateFile digits (anyOptions\<lparr>maxFiles := 1\<rparr>) txtFile = None
   \<and> reported (snd (handleFiles digits (anyOptions\<lparr>maxFiles := 1\<rparr>) inOrder
        [\<lparr>item_id = js ''p'', item_file = pngFile, item_preview = js ''data:,''\<rparr>] [txtFile]
        (initial\<lparr>files := [\<lparr>item_id = js ''p'', item_file = pngFile, item_preview = js ''data:,''\<rparr>]\<rparr>)))
     = []"
  by (simp add: spec_validate_def str_defs hook_defs ex_defs num_simps)

subsection \<open>The error list of the component\<close>

lemma intake_count:
  "intake cfg pf rendered i f acc = (v, e) \<Longrightarrow>
   length v + length e = Suc (length (fst acc) + length (snd acc))"
  by (auto simp: intake_def split: prod.splits if_splits)

lemma forEach_intake_count:
  "forEach_intake cfg pf rendered i xs acc = (v, e) \<Longrightarrow>
   length v + length e = length (fst acc) + length (snd acc) + length xs"
proof (induction xs arbitrary: i acc)
  case Nil
  then show ?case by auto
next
  case (Cons x xs)
  obtain v1 e1 where st: "intake cfg pf rendered i x acc = (v1, e1)"
    by (cases "intake cfg pf rendered i x acc")
  from Cons.prems have "forEach_intake cfg pf rendered (Suc i) xs (v1, e1) = (v, e)"
    by (simp add: st)
  from Cons.IH[OF this] intake_count[OF st] show ?case by simp
qed

text \<open>
  Claim C10. \<open>handleMultipleFiles\<close> sets the error list to the messages its own loop
  collected: the earlier error list has no influence on the new one, every candidate of
  the batch yields either one new record or one message, and after a batch in which every
  candidate was accepted the error list is empty.
\<close>

theorem errors_replaced_by_batch:
  "mf_errors (handleMultipleFiles cfg pf rendered newFiles st)
     = snd (forEach_intake cfg pf rendered 0 newFiles ([], []))
   \<and> mf_errors (handleMultipleFiles cfg pf rendered newFiles (st\<lparr>mf_errors := earlier\<rparr>))
     = mf_errors (handleMultipleFiles cfg pf rendered newFiles st)
   \<and> length (mf_files (handleMultipleFiles cfg pf rendered newFiles st))
       + length (mf_errors (handleMultipleFiles cfg pf rendered newFiles st))
     = length (mf_files st) + length newFiles
   \<and> (length (mf_files (handleMultipleFiles cfg pf rendered newFiles st))
        = length (mf_files st) + length newFiles
      \<longrightarrow> mf_errors (handleMultipleFiles cfg pf rendered newFiles st) = [])"
proof -
  obtain v e where r: "forEach_intake cfg pf rendered 0 newFiles ([], []) = (v, e)"
    by (cases "forEach_intake cfg pf rendered 0 newFiles ([], [])")
  from forEach_intake_count[OF r] have n: "length v + length e = length newFiles" by simp
  show ?thesis using n by (auto simp: handleMultipleFiles_def r)
qed

text \<open>
  An image accepted after a batch that left the message \<open>old\<close>: the record is added
  and the error list is empty.
\<close>

theorem errors_replaced_by_batch_witness:
  "length (mf_files (handleMultipleFiles imageConfig somePlatform [] [pngFile]
       (empty_intake\<lparr>mf_errors := [js ''old'']\<rparr>)))
     = length (mf_files (empty_intake\<lparr>mf_errors := [js ''old'']\<rparr>)) + length [pngFile]
   \<and> mf_errors (handleMultipleFiles imageConfig somePlatform [] [pngFile]
       (empty_intake\<lparr>mf_errors := [js ''old'']\<rparr>)) = []"
proof -
  have h: "length (mf_files (handleMultipleFiles imageConfig somePlatform [] [pngFile]
       (empty_intake\<lparr>mf_errors := [js ''old'']\<rparr>)))
     = length (mf_files (empty_intake\<lparr>mf_errors := [js ''old'']\<rparr>)) + length [pngFile]"
    by (simp add: str_defs intake_defs ex_defs)
  show ?thesis
    using h errors_replaced_by_batch[where cfg = imageConfig and pf = somePlatform
        and rendered = "[]" and newFiles = "[pngFile]"
        and st = "empty_intake\<lparr>mf_errors := [js ''old'']\<rparr>"]
    by blast
qed

subsection \<open>\<open>Promise.all\<close> and the loops of the hook\<close>

lemma forEach_validate_filter:
  "forEach_validate fmt opts xs (v, e) =
     (v @ filter (\<lambda>f. validateFile fmt opts f = None) xs,
      e @ map (\<lambda>f. the (validateFile fmt opts f)) (filter (\<lambda>f. validateFile fmt opts f \<noteq> None) xs))"
  by (induction xs arbitrary: v e) (auto split: option.splits)

lemma fold_report_fields:
  "files (fold (report opts) errs s) = files s"
  "isUploading (fold (report opts) errs s) = isUploading s"
  "uploadProgress (fold (report opts) errs s) = uploadProgress s"
  "uploaded (fold (report opts) errs s) = uploaded s"
  "selected (fold (report opts) errs s) = selected s"
  "reported (fold (report opts) errs s) = reported s @ (if hasOnError opts then errs else [])"
  by (induction errs arbitrary: s) (auto simp: report_def)

lemma tick_fields:
  "files (tick s) = files s" "isUploading (tick s) = isUploading s"
  "uploaded (tick s) = uploaded s" "selected (tick s) = selected s"
  "reported (tick s) = reported s" "resetTimer (tick s) = resetTimer s"
  by (simp_all add: tick_def)

lemma ticks_fields:
  "files ((tick ^^ n) s) = files s" "isUploading ((tick ^^ n) s) = isUploading s"
  "uploaded ((tick ^^ n) s) = uploaded s" "selected ((tick ^^ n) s) = selected s"
  "reported ((tick ^^ n) s) = reported s" "resetTimer ((tick ^^ n) s) = resetTimer s"
  by (induction n) (simp_all add: tick_fields)

lemma settle_all_values:
  "length slots = length ps \<Longrightarrow>
   (\<And>i. i < length ps \<Longrightarrow> slots ! i = None \<or> ps ! i = Resolved (the (slots ! i))) \<Longrightarrow>
   settle_all sched ps slots = Resolved vs \<Longrightarrow>
   length vs = length ps \<and> (\<forall>i<length ps. ps ! i = Resolved (vs ! i))"
proof (induction sched arbitrary: slots)
  case Nil
  then show ?case by simp
next
  case (Cons i rest)
  show ?case
  proof (cases "i < length ps")
    case False
    with Cons.prems(3) have "settle_all rest ps slots = Resolved vs" by simp
    from Cons.IH[OF Cons.prems(1) Cons.prems(2) this] show ?thesis by simp
  next
    case True
    show ?thesis
    proof (cases "ps ! i")
      case Rejected
      with True Cons.prems(3) show ?thesis by simp
    next
      case Pending
      with True Cons.prems(3) have "settle_all rest ps slots = Resolved vs" by simp
      from Cons.IH[OF Cons.prems(1) Cons.prems(2) this] show ?thesis by simp
    next
      case (Resolved v)
      let ?slots = "slots[i := Some v]"
      have len: "length ?slots = length ps" using Cons.prems(1) by simp
      have inv: "?slots ! j = None \<or> ps ! j = Resolved (the (?slots ! j))" if "j < length ps" for j
        using that Cons.prems(1) Cons.prems(2)[of j] Resolved by (cases "j = i") auto
      show ?thesis
      proof (cases "list_all (\<lambda>x. x \<noteq> None) ?slots")
        case False
        with True Resolved Cons.prems(3) have "settle_all rest ps ?slots = Resolved vs" by simp
        from Cons.IH[OF len inv this] show ?thesis by simp
      next
        case full: True
        with True Resolved Cons.prems(3) have vs: "vs = map the ?slots" by simp
        have "ps ! j = Resolved (vs ! j)" if "j < length ps" for j
        proof -
          have "?slots ! j \<noteq> None" using full that len by (simp add: list_all_length)
          with inv[OF that] show ?thesis using vs that len by simp
        qed
        then show ?thesis using vs len by simp
      qed
    qed
  qed
qed

lemma promise_all_values:
  assumes "promise_all sched ps = Resolved vs"
  shows "length vs = length ps \<and> (\<forall>i<length ps. ps ! i = Resolved (vs ! i))"
proof (cases "ps = []")
  case True
  with assms show ?thesis by (simp add: promise_all_def)
next
  case False
  with assms have "settle_all sched ps (replicate (length ps) None) = Resolved vs"
    by (simp add: promise_all_def)
  then show ?thesis
    by (rule settle_all_values[rotated 2]) simp_all
qed

lemma settle_all_completes:
  "length slots = length ps \<Longrightarrow>
   (\<And>i. i < length ps \<Longrightarrow> \<exists>v. ps ! i = Resolved v) \<Longrightarrow>
   \<not> list_all (\<lambda>x. x \<noteq> None) slots \<Longrightarrow>
   {i. i < length ps \<and> slots ! i = None} \<subseteq> set sched \<Longrightarrow>
   \<exists>vs. settle_all sched ps slots = Resolved vs"
proof (induction sched arbitrary: slots)
  case Nil
  from Nil.prems(3) obtain j where "j < length slots" "slots ! j = None"
    by (auto simp: list_all_length)
  with Nil.prems(1,4) show ?case by auto
next
  case (Cons i rest)
  show ?case
  proof (cases "i < length ps")
    case False
    have "{i. i < length ps \<and> slots ! i = None} \<subseteq> set rest"
      using Cons.prems(4) False by auto
    from Cons.IH[OF Cons.prems(1) Cons.prems(2) Cons.prems(3) this] False
    show ?thesis by simp
  next
    case True
    from Cons.prems(2)[OF True] obtain v where v: "ps ! i = Resolved v" ..
    let ?slots = "slots[i := Some v]"
    show ?thesis
    proof (cases "list_all (\<lambda>x. x \<noteq> None) ?slots")
      case True
      with \<open>i < length ps\<close> v show ?thesis by simp
    next
      case False
      have len: "length ?slots = length ps" using Cons.prems(1) by simp
      have "{j. j < length ps \<and> ?slots ! j = None} \<subseteq> set rest"
      proof
        fix j assume "j \<in> {j. j < length ps \<and> ?slots ! j = None}"
        then have j: "j < length ps" "?slots ! j = None" by auto
        then have "j \<noteq> i" using Cons.prems(1) by auto
        with j have "slots ! j = None" by simp
        with j(1) Cons.prems(4) \<open>j \<noteq> i\<close> show "j \<in> set rest" by auto
      qed
      from Cons.IH[OF len Cons.prems(2) False this] True v False
      show ?thesis by simp
    qed
  qed
qed

lemma promise_all_completes:
  assumes "\<And>i. i < length ps \<Longrightarrow> ps ! i = Resolved (vs ! i)" "length vs = length ps"
    and "{0..<length ps} \<subseteq> set sched"
  shows "promise_all sched ps = Resolved vs"
proof (cases "ps = []")
  case True
  with assms show ?thesis by (simp add: promise_all_def)
next
  case False
  have "\<exists>ws. settle_all sched ps (replicate (length ps) None) = Resolved ws"
  proof (rule settle_all_completes)
    show "\<not> list_all (\<lambda>x. x \<noteq> None) (replicate (length ps) (None :: 'a option))"
      using False by (cases ps) simp_all
    show "{i. i < length ps \<and> replicate (length ps) (None :: 'a option) ! i = None} \<subseteq> set sched"
      using assms(3) by auto
  qed (use assms in auto)
  then obtain ws where ws: "promise_all sched ps = Resolved ws"
    using False by (auto simp: promise_all_def)
  from promise_all_values[OF ws] assms have "ws = vs"
    by (intro nth_equalityI) auto
  with ws show ?thesis by simp
qed

lemma report_fields:
  "files (report opts m s) = files s" "isUploading (report opts m s) = isUploading s"
  "uploadProgress (report opts m s) = uploadProgress s" "uploaded (report opts m s) = uploaded s"
  "reported (report opts m s) = reported s @ (if hasOnError opts then [m] else [])"
  by (simp_all add: report_def)

lemma autoUpload_files: "files (autoUpload opts e ff s) = files s"
  by (simp add: autoUpload_def Let_def report_fields ticks_fields split: upload_result.splits)

lemma createFilePreview_Resolved:
  "createFilePreview rid f = Resolved p \<Longrightarrow> item_file p = f \<and> item_id p = rid"
  by (auto simp: createFilePreview_def split: if_splits option.splits)

lemma previews_nth:
  "i < length v \<Longrightarrow>
   map (\<lambda>(i, f). createFilePreview (ids e i) f) (enumerate 0 v) ! i
     = createFilePreview (ids e i) (v ! i)"
  by (simp add: nth_enumerate_eq)

lemma handleFiles_unfold:
  "handleFiles fmt opts e rendered batch s =
     (if filter (\<lambda>f. validateFile fmt opts f = None) batch = [] then
        (Fulfilled, fold (report opts)
           (map (\<lambda>f. the (validateFile fmt opts f)) (filter (\<lambda>f. validateFile fmt opts f \<noteq> None) batch)) s)
      else
        (case promise_all (order e)
                (map (\<lambda>(i, f). createFilePreview (ids e i) f)
                   (enumerate 0 (filter (\<lambda>f. validateFile fmt opts f = None) batch))) of
           Rejected \<Rightarrow> (Unhandled, fold (report opts)
             (map (\<lambda>f. the (validateFile fmt opts f)) (filter (\<lambda>f. validateFile fmt opts f \<noteq> None) batch)) s)
         | Pending \<Rightarrow> (Stalls, fold (report opts)
             (map (\<lambda>f. the (validateFile fmt opts f)) (filter (\<lambda>f. validateFile fmt opts f \<noteq> None) batch)) s)
         | Resolved fw \<Rightarrow>
             (Fulfilled,
              (if hasOnUpload opts then
                 autoUpload opts e (take (maxFiles opts) ((if multiple opts then rendered else []) @ fw))
               else id)
              ((if hasOnFilesSelected opts then
                 (\<lambda>s1. s1\<lparr>selected := selected s1
                     @ [map item_file (take (maxFiles opts) ((if multiple opts then rendered else []) @ fw))]\<rparr>)
                else id)
               ((fold (report opts)
                 (map (\<lambda>f. the (validateFile fmt opts f)) (filter (\<lambda>f. validateFile fmt opts f \<noteq> None) batch)) s)
                 \<lparr>files := take (maxFiles opts) ((if multiple opts then rendered else []) @ fw)\<rparr>)))))"
  by (simp add: handleFiles_def forEach_validate_filter Let_def split: promise.splits)

lemma previews_files:
  assumes "promise_all sched (map (\<lambda>(i, f). createFilePreview (ids e i) f) (enumerate 0 v)) = Resolved fw"
  shows "map item_file fw = v"
proof -
  from promise_all_values[OF assms]
  have len: "length fw = length v"
    and val: "\<And>i. i < length v \<Longrightarrow>
      map (\<lambda>(i, f). createFilePreview (ids e i) f) (enumerate 0 v) ! i = Resolved (fw ! i)"
    by auto
  show ?thesis
  proof (rule nth_equalityI)
    show "length (map item_file fw) = length v" using len by simp
    fix i assume "i < length (map item_file fw)"
    then have i: "i < length v" using len by simp
    from val[OF i] have "createFilePreview (ids e i) (v ! i) = Resolved (fw ! i)"
      by (simp add: previews_nth[OF i])
    from createFilePreview_Resolved[OF this] show "map item_file fw ! i = v ! i"
      using i len by simp
  qed
qed

lemma handleFiles_listed:
  assumes "fst (handleFiles fmt opts e rendered batch s) = Fulfilled"
    and "filter (\<lambda>f. validateFile fmt opts f = None) batch \<noteq> []"
  shows "map item_file (files (snd (handleFiles fmt opts e rendered batch s)))
     = take (maxFiles opts) ((if multiple opts then map item_file rendered else [])
         @ filter (\<lambda>f. validateFile fmt opts f = None) batch)"
proof -
  let ?v = "filter (\<lambda>f. validateFile fmt opts f = None) batch"
  let ?ps = "map (\<lambda>(i, f). createFilePreview (ids e i) f) (enumerate 0 ?v)"
  from assms obtain fw where fw: "promise_all (order e) ?ps = Resolved fw"
    by (cases "promise_all (order e) ?ps") (simp_all add: handleFiles_unfold)
  have "files (snd (handleFiles fmt opts e rendered batch s))
      = take (maxFiles opts) ((if multiple opts then rendered else []) @ fw)"
    using assms(2) fw by (simp add: handleFiles_unfold autoUpload_files)
  then have "map item_file (files (snd (handleFiles fmt opts e rendered batch s)))
      = take (maxFiles opts) (map item_file ((if multiple opts then rendered else []) @ fw))"
    by (simp only: take_map)
  then show ?thesis
    using previews_files[OF fw] by (cases "multiple opts") simp_all
qed

lemma handleFiles_not_listed:
  assumes "fst (handleFiles fmt opts e rendered batch s) \<noteq> Fulfilled
     \<or> filter (\<lambda>f. validateFile fmt opts f = None) batch = []"
  shows "files (snd (handleFiles fmt opts e rendered batch s)) = files s"
proof (cases "filter (\<lambda>f. validateFile fmt opts f = None) batch = []")
  case True
  then show ?thesis by (simp add: handleFiles_unfold fold_report_fields)
next
  case False
  let ?ps = "map (\<lambda>(i, f). createFilePreview (ids e i) f)
      (enumerate 0 (filter (\<lambda>f. validateFile fmt opts f = None) batch))"
  from False assms have nf: "fst (handleFiles fmt opts e rendered batch s) \<noteq> Fulfilled" by simp
  show ?thesis
  proof (cases "promise_all (order e) ?ps")
    case (Resolved fw)
    with False nf show ?thesis by (simp add: handleFiles_unfold)
  next
    case Rejected
    with False show ?thesis by (simp add: handleFiles_unfold fold_report_fields)
  next
    case Pending
    with False show ?thesis by (simp add: handleFiles_unfold fold_report_fields)
  qed
qed

lemma handleFiles_completes:
  assumes "\<And>i. i < length (filter (\<lambda>f. validateFile fmt opts f = None) batch) \<Longrightarrow>
      \<exists>p. createFilePreview (ids e i) (filter (\<lambda>f. validateFile fmt opts f = None) batch ! i) = Resolved p"
    and "{0..<length (filter (\<lambda>f. validateFile fmt opts f = None) batch)} \<subseteq> set (order e)"
  shows "fst (handleFiles fmt opts e rendered batch s) = Fulfilled"
proof -
  let ?v = "filter (\<lambda>f. validateFile fmt opts f = None) batch"
  let ?ps = "map (\<lambda>(i, f). createFilePreview (ids e i) f) (enumerate 0 ?v)"
  define fw where "fw = map (\<lambda>i. SOME p. createFilePreview (ids e i) (?v ! i) = Resolved p) [0..<length ?v]"
  have "promise_all (order e) ?ps = Resolved fw"
  proof (rule promise_all_completes)
    show "length fw = length ?ps" by (simp add: fw_def)
    show "{0..<length ?ps} \<subseteq> set (order e)" using assms(2) by simp
    fix i assume "i < length ?ps"
    then have i: "i < length ?v" by simp
    from assms(1)[OF i] have "createFilePreview (ids e i) (?v ! i) = Resolved (fw ! i)"
      unfolding fw_def using i by (auto intro: someI_ex)
    then show "?ps ! i = Resolved (fw ! i)" by (simp add: previews_nth[OF i])
  qed
  then show ?thesis by (simp add: handleFiles_unfold)
qed

lemma handleFiles_resolved:
  assumes "filter (\<lambda>f. validateFile fmt opts f = None) batch \<noteq> []"
    and "promise_all (order e) (map (\<lambda>(i, f). createFilePreview (ids e i) f)
          (enumerate 0 (filter (\<lambda>f. validateFile fmt opts f = None) batch))) = Resolved fw"
  shows "\<exists>s2. files s2 = take (maxFiles opts) ((if multiple opts then rendered else []) @ fw)
     \<and> uploaded s2 = uploaded s \<and> isUploading s2 = isUploading s
     \<and> uploadProgress s2 = uploadProgress s
     \<and> handleFiles fmt opts e rendered batch s
         = (Fulfilled,
            if hasOnUpload opts
            then autoUpload opts e
                   (take (maxFiles opts) ((if multiple opts then rendered else []) @ fw)) s2
            else s2)"
proof -
  let ?ff = "take (maxFiles opts) ((if multiple opts then rendered else []) @ fw)"
  define s1 where "s1 = (fold (report opts)
      (map (\<lambda>f. the (validateFile fmt opts f)) (filter (\<lambda>f. validateFile fmt opts f \<noteq> None) batch)) s)
      \<lparr>files := ?ff\<rparr>"
  define s2 where "s2 = (if hasOnFilesSelected opts
      then s1\<lparr>selected := selected s1 @ [map item_file ?ff]\<rparr> else s1)"
  have fields: "files s2 = ?ff" "uploaded s2 = uploaded s" "isUploading s2 = isUploading s"
    "uploadProgress s2 = uploadProgress s"
    by (simp_all add: s2_def s1_def fold_report_fields)
  have "handleFiles fmt opts e rendered batch s
      = (Fulfilled, if hasOnUpload opts then autoUpload opts e ?ff s2 else s2)"
    using assms unfolding s2_def s1_def by (simp add: handleFiles_unfold del: take_append)
  with fields show ?thesis by blast
qed




subsection \<open>Previews\<close>

text \<open>
  Claim C6 fails on the code. \<open>btoa\<close> throws for a name with a code unit above 255, so
  the preview of a text file whose name holds the euro sign is rejected, and with it the
  whole call of \<open>handleFiles\<close>, which lists nothing. An image whose blob cannot be read
  leaves the promise pending, as \<open>createFilePreview\<close> sets no \<open>onerror\<close> handler.
\<close>

theorem preview_fails_for_wide_name:
  "createFilePreview (js ''id'') euroFile = Rejected
   \<and> fst (handleFiles digits anyOptions inOrder [] [euroFile] initial) = Unhandled
   \<and> files (snd (handleFiles digits anyOptions inOrder [] [euroFile] initial)) = []
   \<and> createFilePreview (js ''id'') (pngFile\<lparr>file_read := None\<rparr>) = Pending"
  by (simp add: str_defs hook_defs ex_defs num_simps)

text \<open>
  Claim C7. For a batch of valid files whose previews all resolve, in whatever order the
  schedule settles them, \<open>handleFiles\<close> completes and lists the files of the batch in
  the order of the input, after the rendered ones when \<open>multiple\<close> is set, cut to
  \<open>maxFiles\<close>.
\<close>

theorem previews_committed_in_input_order:
  assumes "\<forall>f\<in>set batch. validateFile fmt opts f = None" and "batch \<noteq> []"
    and "\<forall>i<length batch. \<exists>p. createFilePreview (ids e i) (batch ! i) = Resolved p"
    and "{0..<length batch} \<subseteq> set (order e)"
  shows "fst (handleFiles fmt opts e rendered batch s) = Fulfilled
     \<and> map item_file (files (snd (handleFiles fmt opts e rendered batch s)))
       = take (maxFiles opts) ((if multiple opts then map item_file rendered else []) @ batch)"
proof -
  have v: "filter (\<lambda>f. validateFile fmt opts f = None) batch = batch"
    using assms(1) by (simp add: filter_id_conv)
  have ok: "fst (handleFiles fmt opts e rendered batch s) = Fulfilled"
    by (rule handleFiles_completes) (use assms(3,4) v in auto)
  from handleFiles_listed[OF ok] assms(2) v ok show ?thesis by simp
qed


text \<open>
  Three files whose previews settle in the order third, first, second are listed first,
  second, third.
\<close>

theorem previews_committed_in_input_order_witness:
  "validateFile digits anyOptions txtFile = None
   \<and> validateFile digits anyOptions pngFile = None
   \<and> validateFile digits anyOptions pdfFile = None
   \<and> order (inOrder\<lparr>order := [2, 0, 1]\<rparr>) = [2, 0, 1]
   \<and> fst (handleFiles digits anyOptions (inOrder\<lparr>order := [2, 0, 1]\<rparr>) []
        [txtFile, pngFile, pdfFile] initial) = Fulfilled
   \<and> map item_file (files (snd (handleFiles digits anyOptions (inOrder\<lparr>order := [2, 0, 1]\<rparr>) []
        [txtFile, pngFile, pdfFile] initial))) = [txtFile, pngFile, pdfFile]"
proof -
  have h1: "\<forall>f\<in>set [txtFile, pngFile, pdfFile]. validateFile digits anyOptions f = None"
    by (simp add: validateFile_def ex_defs)
  have h2: "[txtFile, pngFile, pdfFile] \<noteq> []" by simp
  have r: "\<exists>p. createFilePreview rid txtFile = Resolved p"
    "\<exists>p. createFilePreview rid pngFile = Resolved p"
    "\<exists>p. createFilePreview rid pdfFile = Resolved p" for rid
    by (simp_all add: createFilePreview_def str_defs ex_defs)
  have h3: "\<forall>i<length [txtFile, pngFile, pdfFile].
      \<exists>p. createFilePreview (ids (inOrder\<lparr>order := [2, 0, 1]\<rparr>) i) ([txtFile, pngFile, pdfFile] ! i)
        = Resolved p"
  proof (intro allI impI)
    fix i assume "i < length [txtFile, pngFile, pdfFile]"
    then consider "i = 0" | "i = 1" | "i = 2" by (auto simp: less_Suc_eq)
    then show "\<exists>p. createFilePreview (ids (inOrder\<lparr>order := [2, 0, 1]\<rparr>) i)
        ([txtFile, pngFile, pdfFile] ! i) = Resolved p"
      by cases (simp_all add: r)
  qed
  have h4: "{0..<length [txtFile, pngFile, pdfFile]} \<subseteq> set (order (inOrder\<lparr>order := [2, 0, 1]\<rparr>))"
    by (auto simp: inOrder_def less_Suc_eq)
  have m: "maxFiles anyOptions = 3" "multiple anyOptions" by (simp_all add: anyOptions_def)
  show ?thesis
    using h1 h4 m
      previews_committed_in_input_order[OF h1 h2 h3 h4, of "[]" initial]
    by simp
qed

subsection \<open>A failed upload\<close>



subsection \<open>Single selection\<close>

text \<open>
  Claim C3, as amended. With \<open>multiple\<close> false, a call of \<open>handleFiles\<close> that
  completes with at least one valid file replaces the whole collection by the valid files
  of the batch, in input order and cut to \<open>maxFiles\<close>; any other call leaves the
  collection as it was. So a single valid file \<open>b\<close> whose preview resolves leaves
  exactly the record of \<open>b\<close> listed, whatever was listed before, and the collection
  holds at most one record after every batch with at most one valid file.
\<close>

theorem single_mode_replaces:
  assumes "\<not> multiple opts"
  shows "(fst (handleFiles fmt opts e rendered batch s) = Fulfilled
          \<and> filter (\<lambda>f. validateFile fmt opts f = None) batch \<noteq> [] \<longrightarrow>
        map item_file (files (snd (handleFiles fmt opts e rendered batch s)))
          = take (maxFiles opts) (filter (\<lambda>f. validateFile fmt opts f = None) batch))
     \<and> (fst (handleFiles fmt opts e rendered batch s) \<noteq> Fulfilled
          \<or> filter (\<lambda>f. validateFile fmt opts f = None) batch = [] \<longrightarrow>
        files (snd (handleFiles fmt opts e rendered batch s)) = files s)
     \<and> (validateFile fmt opts b = None \<and> createFilePreview (ids e 0) b = Resolved p
          \<and> 0 \<in> set (order e) \<and> 0 < maxFiles opts \<longrightarrow>
        fst (handleFiles fmt opts e rendered [b] s) = Fulfilled
        \<and> files (snd (handleFiles fmt opts e rendered [b] s)) = [p])
     \<and> (length (filter (\<lambda>f. validateFile fmt opts f = None) batch) \<le> 1
          \<and> length (files s) \<le> 1 \<longrightarrow>
        length (files (snd (handleFiles fmt opts e rendered batch s))) \<le> 1)"
proof (intro conjI)
  show "fst (handleFiles fmt opts e rendered batch s) = Fulfilled
          \<and> filter (\<lambda>f. validateFile fmt opts f = None) batch \<noteq> [] \<longrightarrow>
        map item_file (files (snd (handleFiles fmt opts e rendered batch s)))
          = take (maxFiles opts) (filter (\<lambda>f. validateFile fmt opts f = None) batch)"
    using handleFiles_listed[of fmt opts e rendered batch s] assms by simp
next
  show "fst (handleFiles fmt opts e rendered batch s) \<noteq> Fulfilled
          \<or> filter (\<lambda>f. validateFile fmt opts f = None) batch = [] \<longrightarrow>
        files (snd (handleFiles fmt opts e rendered batch s)) = files s"
    using handleFiles_not_listed[of fmt opts e rendered batch s] by blast
next
  show "validateFile fmt opts b = None \<and> createFilePreview (ids e 0) b = Resolved p
          \<and> 0 \<in> set (order e) \<and> 0 < maxFiles opts \<longrightarrow>
        fst (handleFiles fmt opts e rendered [b] s) = Fulfilled
        \<and> files (snd (handleFiles fmt opts e rendered [b] s)) = [p]"
  proof
  assume a: "validateFile fmt opts b = None \<and> createFilePreview (ids e 0) b = Resolved p
          \<and> 0 \<in> set (order e) \<and> 0 < maxFiles opts"
  have v: "filter (\<lambda>f. validateFile fmt opts f = None) [b] = [b]" using a by simp
  have pa: "promise_all (order e) (map (\<lambda>(i, f). createFilePreview (ids e i) f)
      (enumerate 0 (filter (\<lambda>f. validateFile fmt opts f = None) [b]))) = Resolved [p]"
    by (rule promise_all_completes) (use a v in auto)
  from handleFiles_resolved[OF _ pa, of rendered s] v
  obtain s2 where s2: "files s2 = take (maxFiles opts) ((if multiple opts then rendered else []) @ [p])"
    and h: "handleFiles fmt opts e rendered [b] s
         = (Fulfilled,
            if hasOnUpload opts
            then autoUpload opts e
                   (take (maxFiles opts) ((if multiple opts then rendered else []) @ [p])) s2
            else s2)"
    by auto
  have "take (maxFiles opts) [p] = [p]" using a by (cases "maxFiles opts") simp_all
  with s2 assms have "files s2 = [p]" by simp
  then show "fst (handleFiles fmt opts e rendered [b] s) = Fulfilled
        \<and> files (snd (handleFiles fmt opts e rendered [b] s)) = [p]"
    by (simp add: h autoUpload_files)
  qed
next
  show "length (filter (\<lambda>f. validateFile fmt opts f = None) batch) \<le> 1
          \<and> length (files s) \<le> 1 \<longrightarrow>
        length (files (snd (handleFiles fmt opts e rendered batch s))) \<le> 1"
  proof
  assume a: "length (filter (\<lambda>f. validateFile fmt opts f = None) batch) \<le> 1
          \<and> length (files s) \<le> 1"
  show "length (files (snd (handleFiles fmt opts e rendered batch s))) \<le> 1"
  proof (cases "fst (handleFiles fmt opts e rendered batch s) = Fulfilled
          \<and> filter (\<lambda>f. validateFile fmt opts f = None) batch \<noteq> []")
    case True
    from handleFiles_listed[of fmt opts e rendered batch s] True assms
    have "map item_file (files (snd (handleFiles fmt opts e rendered batch s)))
          = take (maxFiles opts) (filter (\<lambda>f. validateFile fmt opts f = None) batch)"
      by simp
    then have "length (files (snd (handleFiles fmt opts e rendered batch s)))
          = length (take (maxFiles opts) (filter (\<lambda>f. validateFile fmt opts f = None) batch))"
      by (metis length_map)
    with a show ?thesis by auto
  next
    case False
    then have "files (snd (handleFiles fmt opts e rendered batch s)) = files s"
      by (intro handleFiles_not_listed) blast
    with a show ?thesis by simp
  qed
  qed
qed


text \<open>
  The file \<open>b.txt\<close> accepted while an image is listed leaves only the record of
  \<open>b.txt\<close>; an empty batch leaves the image listed.
\<close>

theorem single_mode_replaces_witness:
  "fst (handleFiles digits (anyOptions\<lparr>multiple := False\<rparr>) inOrder
        [\<lparr>item_id = js ''a'', item_file = pngFile, item_preview = js ''data:,''\<rparr>] [txtFile]
        (initial\<lparr>files := [\<lparr>item_id = js ''a'', item_file = pngFile, item_preview = js ''data:,''\<rparr>]\<rparr>))
       = Fulfilled
   \<and> files (snd (handleFiles digits (anyOptions\<lparr>multiple := False\<rparr>) inOrder
        [\<lparr>item_id = js ''a'', item_file = pngFile, item_preview = js ''data:,''\<rparr>] [txtFile]
        (initial\<lparr>files := [\<lparr>item_id = js ''a'', item_file = pngFile, item_preview = js ''data:,''\<rparr>]\<rparr>)))
       = [\<lparr>item_id = js ''0'', item_file = txtFile,
           item_preview = js ''data:text/plain;base64,Yi50eHQ=''\<rparr>]
   \<and> map item_file (files (snd (handleFiles digits (anyOptions\<lparr>multiple := False\<rparr>) inOrder
        [\<lparr>item_id = js ''a'', item_file = pngFile, item_preview = js ''data:,''\<rparr>] [txtFile]
        (initial\<lparr>files := [\<lparr>item_id = js ''a'', item_file = pngFile, item_preview = js ''data:,''\<rparr>]\<rparr>))))
       = [txtFile]
   \<and> length (files (snd (handleFiles digits (anyOptions\<lparr>multiple := False\<rparr>) inOrder
        [\<lparr>item_id = js ''a'', item_file = pngFile, item_preview = js ''data:,''\<rparr>] [txtFile]
        (initial\<lparr>files := [\<lparr>item_id = js ''a'', item_file = pngFile, item_preview = js ''data:,''\<rparr>]\<rparr>))))
       \<le> 1
   \<and> files (snd (handleFiles digits (anyOptions\<lparr>multiple := False\<rparr>) inOrder
        [\<lparr>item_id = js ''a'', item_file = pngFile, item_preview = js ''data:,''\<rparr>] []
        (initial\<lparr>files := [\<lparr>item_id = js ''a'', item_file = pngFile, item_preview = js ''data:,''\<rparr>]\<rparr>)))
       = [\<lparr>item_id = js ''a'', item_file = pngFile, item_preview = js ''data:,''\<rparr>]"
proof -
  let ?o = "anyOptions\<lparr>multiple := False\<rparr>"
  let ?a = "\<lparr>item_id = js ''a'', item_file = pngFile, item_preview = js ''data:,''\<rparr>"
  let ?p = "\<lparr>item_id = js ''0'', item_file = txtFile,
      item_preview = js ''data:text/plain;base64,Yi50eHQ=''\<rparr>"
  have h1: "\<not> multiple ?o" by simp
  have h3: "validateFile digits ?o txtFile = None \<and> createFilePreview (ids inOrder 0) txtFile = Resolved ?p
      \<and> 0 \<in> set (order inOrder) \<and> 0 < maxFiles ?o"
    by (simp add: validateFile_def createFilePreview_def ex_defs str_defs digits.simps)
  have v: "filter (\<lambda>f. validateFile digits ?o f = None) [txtFile] = [txtFile]"
    "filter (\<lambda>f. validateFile digits ?o f = None) [] = []"
    using h3 by simp_all
  have m: "maxFiles ?o = 3" "files (initial\<lparr>files := [?a]\<rparr>) = [?a]"
    by (simp_all add: anyOptions_def)
  note T = single_mode_replaces[OF h1, where fmt = digits and e = inOrder and rendered = "[?a]"
      and s = "initial\<lparr>files := [?a]\<rparr>" and b = txtFile and p = ?p]
  have r1: "fst (handleFiles digits ?o inOrder [?a] [txtFile] (initial\<lparr>files := [?a]\<rparr>)) = Fulfilled"
    "files (snd (handleFiles digits ?o inOrder [?a] [txtFile] (initial\<lparr>files := [?a]\<rparr>))) = [?p]"
    using h3 T[where batch = "[txtFile]"] by blast+
  have r2: "map item_file (files (snd (handleFiles digits ?o inOrder [?a] [txtFile]
      (initial\<lparr>files := [?a]\<rparr>)))) = [txtFile]"
    using r1(1) T[where batch = "[txtFile]"] unfolding v m by simp
  have r3: "length (files (snd (handleFiles digits ?o inOrder [?a] [txtFile]
      (initial\<lparr>files := [?a]\<rparr>)))) \<le> 1"
    using T[where batch = "[txtFile]"] unfolding v m by simp
  have r4: "files (snd (handleFiles digits ?o inOrder [?a] [] (initial\<lparr>files := [?a]\<rparr>))) = [?a]"
    using T[where batch = "[]"] unfolding v m by simp
  from r1 r2 r3 r4 show ?thesis by blast
qed

text \<open>
  The claim as stated fails: with \<open>multiple\<close> false and \<open>maxFiles = 3\<close>, a batch of
  two valid files leaves two records listed.
\<close>

theorem single_mode_replaces_counterexample:
  "\<not> multiple (anyOptions\<lparr>multiple := False\<rparr>)
   \<and> length (files (snd (handleFiles digits (anyOptions\<lparr>multiple := False\<rparr>) inOrder []
        [txtFile, pngFile] initial))) = 2"
  by (simp add: str_defs hook_defs ex_defs num_simps)


subsection \<open>The bound on the collection\<close>














subsection \<open>Capacity\<close>








subsection \<open>Type matching\<close>









end
